theory Spec2Isabelle
  imports
    Main
    "HOL-Library.Char_ord"
    "HOL-Library.List_Lexorder"
    "HOL-Library.Sublist"
begin

section \<open>The journal's storage manager\<close>

text \<open>
  A shallow embedding of \<^verbatim>\<open>StorageManager\<close> (the storage module of the learning
  journal) and of the places of \<^verbatim>\<open>main.js\<close> that the claims about creating and
  clearing go through: the form handler that creates an entry, the click handler of
  the clear-all button, and \<^verbatim>\<open>renderJournalEntries\<close>, which that handler runs at its
  end.

  What the embedding fixes:
  \<^item> An entry is the object the code builds and reads: the six fields \<^verbatim>\<open>id\<close>,
    \<^verbatim>\<open>title\<close>, \<^verbatim>\<open>content\<close>, \<^verbatim>\<open>date\<close>, \<^verbatim>\<open>timestamp\<close>, \<^verbatim>\<open>location\<close>, each of which
    may be missing (\<open>None\<close>: reading the field gives \<^verbatim>\<open>undefined\<close>). Identifiers,
    titles, contents and dates are strings, timestamps are integers (milliseconds), as
    the JSDoc comments and the form handler have them. An object that has a field
    whose value is \<^verbatim>\<open>undefined\<close> or \<^verbatim>\<open>null\<close>, and further fields that the spread
    \<^verbatim>\<open>...entry\<close> would copy, are not modelled.
  \<^item> Strings are lists of ASCII characters; comparison is lexicographic on character
    codes, as JavaScript compares strings by code unit. Where a statement depends on
    what the source does with a character (folding its case), it is stated for ASCII
    text.
  \<^item> \<^verbatim>\<open>JSON.parse (JSON.stringify v)\<close> gives \<open>v\<close> back on these values, so the local
    slot is modelled by what \<^verbatim>\<open>JSON.parse\<close> makes of its text.
  \<^item> What can raise inside a \<^verbatim>\<open>try\<close> block returns a result of type \<open>error + 'a\<close>, and
    the \<^verbatim>\<open>catch\<close> is the case of \<open>Inl\<close>. The two things that raise in the local methods
    are an array method called on a value that is no array, and
    \<^verbatim>\<open>localStorage.setItem\<close> refusing the text.
\<close>

subsection \<open>Values\<close>

text \<open>
  The JSON values that a location is made of. A location is stored and copied, never
  looked into; its numbers are taken to be integers.
\<close>

datatype json = JNull | JNum int | JStr string | JObj "(string \<times> json) list"

record entry =
  id_field :: "string option"
  title :: "string option"
  content :: "string option"
  date :: "string option"
  timestamp :: "int option"
  location :: "json option"

text \<open>
  What a variable that is meant to hold the entries can hold at run time: an array of
  entries, \<^verbatim>\<open>null\<close>, or some other JSON value (an object, a number, a boolean).
  Calling an array method on the last two raises a \<^verbatim>\<open>TypeError\<close>. A JSON text that
  is a bare string is left out.
\<close>

datatype jsvalue = Arr "entry list" | Null | Other

datatype error = TypeError | QuotaExceededError | NetworkError | HttpError | SyntaxError

subsection \<open>The browser's local storage\<close>

text \<open>
  The text under the key \<^verbatim>\<open>journalEntries\<close>: no text (or the empty string, which is
  falsy as well), a text that \<^verbatim>\<open>JSON.parse\<close> rejects, or the text of a JSON value.
\<close>

datatype item = Absent | Unparsable | Json jsvalue

datatype request =
    GetReflections
  | GetStaticFile
  | DeleteReflection "string option"
  | SearchReflections "string option" "string option" "string option"

datatype body = Invalid | Body jsvalue

datatype reply = Rejected | Response bool body

text \<open>
  The world the storage manager runs in. \<open>accepts\<close> says for which collections
  \<^verbatim>\<open>localStorage.setItem\<close> stores the text; for the others it raises
  \<^verbatim>\<open>QuotaExceededError\<close>. \<open>respond n rq\<close> is what the remote service answers to the
  request \<open>rq\<close> when \<open>n\<close> requests were sent before it; \<open>sent\<close> is the log of the
  requests issued so far. \<open>USE_API\<close> is the configuration flag of the same name.
\<close>

record world =
  journalEntries :: item
  accepts :: "entry list \<Rightarrow> bool"
  USE_API :: bool
  respond :: "nat \<Rightarrow> request \<Rightarrow> reply"
  sent :: "request list"

definition getAllEntries :: "world \<Rightarrow> jsvalue" where
  "getAllEntries w =
     (case journalEntries w of
        Absent \<Rightarrow> Arr []
      | Unparsable \<Rightarrow> Arr []
      | Json v \<Rightarrow> v)"

definition setItem :: "entry list \<Rightarrow> world \<Rightarrow> error + world" where
  "setItem es w =
     (if accepts w es then Inr (w\<lparr>journalEntries := Json (Arr es)\<rparr>)
      else Inl QuotaExceededError)"

subsection \<open>saveEntry\<close>

text \<open>\<^verbatim>\<open>x || d\<close> on a value that is a string, a number or a JSON value, or missing.\<close>

definition or_str :: "string option \<Rightarrow> string \<Rightarrow> string" where
  "or_str x d = (case x of None \<Rightarrow> d | Some s \<Rightarrow> if s = [] then d else s)"

definition or_num :: "int option \<Rightarrow> int \<Rightarrow> int" where
  "or_num x d = (case x of None \<Rightarrow> d | Some n \<Rightarrow> if n = 0 then d else n)"

fun truthy :: "json \<Rightarrow> bool" where
  "truthy JNull = False"
| "truthy (JNum n) = (n \<noteq> 0)"
| "truthy (JStr s) = (s \<noteq> [])"
| "truthy (JObj fs) = True"

definition or_json :: "json option \<Rightarrow> json \<Rightarrow> json" where
  "or_json x d = (case x of None \<Rightarrow> d | Some v \<Rightarrow> if truthy v then v else d)"

text \<open>\<^verbatim>\<open>Number.prototype.toString\<close> on an integer: its decimal digits.\<close>

definition digit_char :: "nat \<Rightarrow> char" where
  "digit_char d = char_of (48 + d)"

function digits :: "nat \<Rightarrow> string" where
  "digits n = (if n < 10 then [digit_char n] else digits (n div 10) @ [digit_char (n mod 10)])"
  by pat_completeness auto
termination
  by (relation "measure (\<lambda>n. n)") auto

declare digits.simps [simp del]

definition toString :: "int \<Rightarrow> string" where
  "toString i = (if i < 0 then CHR ''-'' # digits (nat (- i)) else digits (nat i))"

text \<open>The spread \<^verbatim>\<open>{...a, ...b}\<close>: a field that \<open>b\<close> has wins over the one of \<open>a\<close>.\<close>

definition override :: "'a option \<Rightarrow> 'a option \<Rightarrow> 'a option" where
  "override a b = (case b of None \<Rightarrow> a | Some v \<Rightarrow> Some v)"

definition spread :: "entry \<Rightarrow> entry \<Rightarrow> entry" where
  "spread a b =
     \<lparr> id_field = override (id_field a) (id_field b),
       title = override (title a) (title b),
       content = override (content a) (content b),
       date = override (date a) (date b),
       timestamp = override (timestamp a) (timestamp b),
       location = override (location a) (location b) \<rparr>"

definition default_location :: json where
  "default_location = JObj [(''city'', JStr ''Unknown''), (''country'', JStr ''Unknown'')]"

text \<open>
  The object literal of \<^verbatim>\<open>saveEntry\<close>. It reads the clock up to three times, in this
  order: \<open>t_id\<close> is \<^verbatim>\<open>Date.now()\<close> of the \<^verbatim>\<open>id\<close> line, \<open>today\<close> is
  \<^verbatim>\<open>new Date().toISOString().split('T')[0]\<close>, \<open>t_ts\<close> is \<^verbatim>\<open>Date.now()\<close> of the
  \<^verbatim>\<open>timestamp\<close> line.
\<close>

definition newEntry :: "int \<Rightarrow> string \<Rightarrow> int \<Rightarrow> entry \<Rightarrow> entry" where
  "newEntry t_id today t_ts e =
     spread
       \<lparr> id_field = Some (toString t_id),
         title = Some (or_str (title e) []),
         content = Some (or_str (content e) []),
         date = Some (or_str (date e) today),
         timestamp = Some (or_num (timestamp e) t_ts),
         location = Some (or_json (location e) default_location) \<rparr>
       e"

definition saveEntry :: "int \<Rightarrow> string \<Rightarrow> int \<Rightarrow> entry \<Rightarrow> world \<Rightarrow> bool \<times> world" where
  "saveEntry t_id today t_ts e w =
     (case getAllEntries w of
        Arr entries \<Rightarrow>
          (case setItem (newEntry t_id today t_ts e # entries) w of
             Inr w' \<Rightarrow> (True, w')
           | Inl err \<Rightarrow> (False, w))
      | Null \<Rightarrow> (False, w)
      | Other \<Rightarrow> (False, w))"

subsection \<open>deleteEntry, clearAllEntries\<close>

definition deleteEntry :: "string \<Rightarrow> world \<Rightarrow> bool \<times> world" where
  "deleteEntry entryId w =
     (case getAllEntries w of
        Arr entries \<Rightarrow>
          (case setItem (filter (\<lambda>entry. id_field entry \<noteq> Some entryId) entries) w of
             Inr w' \<Rightarrow> (True, w')
           | Inl err \<Rightarrow> (False, w))
      | Null \<Rightarrow> (False, w)
      | Other \<Rightarrow> (False, w))"


subsection \<open>syncWithJSON\<close>

text \<open>
  The \<^verbatim>\<open>forEach\<close> over the local entries, with \<open>merged\<close> the array that the loop
  pushes to; \<^verbatim>\<open>jsonEntries.some (je => je.id === localEntry.id)\<close> is \<open>list_ex\<close>.
\<close>

fun merge_loop :: "entry list \<Rightarrow> entry list \<Rightarrow> entry list \<Rightarrow> entry list" where
  "merge_loop jsonEntries [] merged = merged"
| "merge_loop jsonEntries (localEntry # rest) merged =
     merge_loop jsonEntries rest
       (if list_ex (\<lambda>je. id_field je = id_field localEntry) jsonEntries then merged
        else merged @ [localEntry])"

definition syncWithJSON :: "entry list \<Rightarrow> world \<Rightarrow> entry list \<times> world" where
  "syncWithJSON jsonEntries w =
     (case getAllEntries w of
        Arr localEntries \<Rightarrow>
          (let mergedEntries = merge_loop jsonEntries localEntries jsonEntries
           in case setItem mergedEntries w of
                Inr w' \<Rightarrow> (mergedEntries, w')
              | Inl err \<Rightarrow> (jsonEntries, w))
      | Null \<Rightarrow> (jsonEntries, w)
      | Other \<Rightarrow> (jsonEntries, w))"

text \<open>The merge as the specification words it.\<close>

definition merge_spec :: "entry list \<Rightarrow> entry list \<Rightarrow> entry list" where
  "merge_spec remote localEntries =
     remote @ filter (\<lambda>l. id_field l \<notin> set (map id_field remote)) localEntries"

subsection \<open>clientSideSearch\<close>

text \<open>
  \<^verbatim>\<open>toLowerCase\<close> on ASCII text: the letters \<^verbatim>\<open>A\<close> to \<^verbatim>\<open>Z\<close> become \<^verbatim>\<open>a\<close> to \<^verbatim>\<open>z\<close>, every
  other ASCII character stays. Beyond ASCII the source folds further letters, which
  \<open>lower_char\<close> does not; \<open>ascii\<close> marks the text on which the two agree. Then
  \<^verbatim>\<open>haystack.includes (needle)\<close>.
\<close>

definition ascii :: "string \<Rightarrow> bool" where
  "ascii s = list_all (\<lambda>c. of_char c < (128 :: nat)) s"

definition lower_char :: "char \<Rightarrow> char" where
  "lower_char c =
     (if CHR ''A'' \<le> c \<and> c \<le> CHR ''Z'' then char_of (of_char c + (32 :: nat)) else c)"

definition toLowerCase :: "string \<Rightarrow> string" where
  "toLowerCase s = map lower_char s"

fun includes_str :: "string \<Rightarrow> string \<Rightarrow> bool" where
  "includes_str [] needle = (needle = [])"
| "includes_str (c # cs) needle = (prefix needle (c # cs) \<or> includes_str cs needle)"

text \<open>
  The three callbacks. \<^verbatim>\<open>entry.title?.toLowerCase()\<close> is \<^verbatim>\<open>undefined\<close>, hence falsy,
  on an entry without title. A missing date is \<^verbatim>\<open>undefined\<close>, and \<^verbatim>\<open>undefined >= s\<close>
  and \<^verbatim>\<open>undefined <= s\<close> are both false.
\<close>

definition keyword_match :: "string \<Rightarrow> entry \<Rightarrow> bool" where
  "keyword_match lowerQuery entry =
     (let titleMatch = (case title entry of None \<Rightarrow> False
                        | Some t \<Rightarrow> includes_str (toLowerCase t) lowerQuery);
          contentMatch = (case content entry of None \<Rightarrow> False
                          | Some c \<Rightarrow> includes_str (toLowerCase c) lowerQuery)
      in titleMatch \<or> contentMatch)"

definition date_from :: "string \<Rightarrow> entry \<Rightarrow> bool" where
  "date_from dateFrom entry = (case date entry of None \<Rightarrow> False | Some d \<Rightarrow> d \<ge> dateFrom)"

definition date_to :: "string \<Rightarrow> entry \<Rightarrow> bool" where
  "date_to dateTo entry = (case date entry of None \<Rightarrow> False | Some d \<Rightarrow> d \<le> dateTo)"

text \<open>\<^verbatim>\<open>v.filter (p)\<close>: defined on arrays only.\<close>

definition js_filter :: "(entry \<Rightarrow> bool) \<Rightarrow> jsvalue \<Rightarrow> error + jsvalue" where
  "js_filter p v =
     (case v of
        Arr es \<Rightarrow> Inr (Arr (filter p es))
      | Null \<Rightarrow> Inl TypeError
      | Other \<Rightarrow> Inl TypeError)"

definition clientSideSearch ::
  "jsvalue \<Rightarrow> string \<Rightarrow> string \<Rightarrow> string \<Rightarrow> error + jsvalue" where
  "clientSideSearch entries query dateFrom dateTo =
     (case (if query \<noteq> [] then js_filter (keyword_match (toLowerCase query)) entries
            else Inr entries) of
        Inl err \<Rightarrow> Inl err
      | Inr filtered1 \<Rightarrow>
          (case (if dateFrom \<noteq> [] then js_filter (date_from dateFrom) filtered1
                 else Inr filtered1) of
             Inl err \<Rightarrow> Inl err
           | Inr filtered2 \<Rightarrow>
               (if dateTo \<noteq> [] then js_filter (date_to dateTo) filtered2
                else Inr filtered2)))"

text \<open>
  The filter as the specification words it: a case-insensitive substring match of the
  keyword against title or content when a keyword is given, \<open>date \<ge> dateFrom\<close> and
  \<open>date \<le> dateTo\<close> under string comparison when the bounds are given, all of them
  together.
\<close>

definition spec_match :: "string \<Rightarrow> string \<Rightarrow> string \<Rightarrow> entry \<Rightarrow> bool" where
  "spec_match keyword dateFrom dateTo e \<longleftrightarrow>
     (keyword \<noteq> [] \<longrightarrow>
        (case title e of None \<Rightarrow> False
         | Some t \<Rightarrow> sublist (toLowerCase keyword) (toLowerCase t))
      \<or> (case content e of None \<Rightarrow> False
         | Some c \<Rightarrow> sublist (toLowerCase keyword) (toLowerCase c)))
   \<and> (dateFrom \<noteq> [] \<longrightarrow> (case date e of None \<Rightarrow> False | Some d \<Rightarrow> d \<ge> dateFrom))
   \<and> (dateTo \<noteq> [] \<longrightarrow> (case date e of None \<Rightarrow> False | Some d \<Rightarrow> d \<le> dateTo))"

text \<open>An entry whose title, content and date, where it has them, are ASCII text.\<close>

definition ascii_entry :: "entry \<Rightarrow> bool" where
  "ascii_entry e \<longleftrightarrow>
     (case title e of None \<Rightarrow> True | Some t \<Rightarrow> ascii t)
   \<and> (case content e of None \<Rightarrow> True | Some c \<Rightarrow> ascii c)
   \<and> (case date e of None \<Rightarrow> True | Some d \<Rightarrow> ascii d)"

subsection \<open>The remote service\<close>

definition fetch :: "request \<Rightarrow> world \<Rightarrow> reply \<times> world" where
  "fetch rq w = (respond w (length (sent w)) rq, w\<lparr>sent := sent w @ [rq]\<rparr>)"

text \<open>
  \<^verbatim>\<open>const response = await fetch (...); if (!response.ok) throw ...;
  await response.json()\<close>: the pattern every remote method starts with.
\<close>

fun read_json :: "reply \<Rightarrow> error + jsvalue" where
  "read_json Rejected = Inl NetworkError"
| "read_json (Response False b) = Inl HttpError"
| "read_json (Response True Invalid) = Inl SyntaxError"
| "read_json (Response True (Body v)) = Inr v"

text \<open>
  The \<^verbatim>\<open>try\<close> block of \<^verbatim>\<open>fetchEntriesFromJSON\<close>, for either address:
  \<^verbatim>\<open>entries.length\<close> in the log line raises on \<^verbatim>\<open>null\<close>.
\<close>

definition fetch_entries :: "request \<Rightarrow> world \<Rightarrow> (error + jsvalue) \<times> world" where
  "fetch_entries rq w =
     (case fetch rq w of
        (r, w') \<Rightarrow>
          (case read_json r of
             Inl err \<Rightarrow> (Inl err, w')
           | Inr Null \<Rightarrow> (Inl TypeError, w')
           | Inr entries \<Rightarrow> (Inr entries, w')))"

definition fetchEntriesFromJSON :: "world \<Rightarrow> jsvalue \<times> world" where
  "fetchEntriesFromJSON w =
     (case (if USE_API w then fetch_entries GetReflections w
            else fetch_entries GetStaticFile w) of
        (Inr entries, w') \<Rightarrow> (entries, w')
      | (Inl err, w') \<Rightarrow> (Arr [], w'))"

definition deleteEntryFromJSON :: "string option \<Rightarrow> world \<Rightarrow> bool \<times> world" where
  "deleteEntryFromJSON entryId w =
     (if \<not> USE_API w then (False, w)
      else case fetch (DeleteReflection entryId) w of
             (r, w') \<Rightarrow>
               (case read_json r of
                  Inr result \<Rightarrow> (True, w')
                | Inl err \<Rightarrow> (False, w')))"

text \<open>
  \<^verbatim>\<open>entries.map (entry => this.deleteEntryFromJSON (entry.id))\<close> followed by
  \<^verbatim>\<open>Promise.all\<close>: every call sends its request before the first answer is awaited, in
  the order of the entries, and none of the promises is ever rejected, so the list of
  their results is what \<^verbatim>\<open>Promise.all\<close> resolves to.
\<close>

fun delete_each :: "entry list \<Rightarrow> world \<Rightarrow> bool list \<times> world" where
  "delete_each [] w = ([], w)"
| "delete_each (entry # rest) w =
     (case deleteEntryFromJSON (id_field entry) w of
        (b, w1) \<Rightarrow> (case delete_each rest w1 of (bs, w2) \<Rightarrow> (b # bs, w2)))"

text \<open>The \<^verbatim>\<open>try\<close> block of \<^verbatim>\<open>clearAllEntriesFromJSON\<close>.\<close>

definition clearAll_try :: "world \<Rightarrow> (error + bool list) \<times> world" where
  "clearAll_try w =
     (case fetchEntriesFromJSON w of
        (Arr entries, w1) \<Rightarrow> (case delete_each entries w1 of (bs, w2) \<Rightarrow> (Inr bs, w2))
      | (Null, w1) \<Rightarrow> (Inl TypeError, w1)
      | (Other, w1) \<Rightarrow> (Inl TypeError, w1))"

definition clearAllEntriesFromJSON :: "world \<Rightarrow> bool \<times> world" where
  "clearAllEntriesFromJSON w =
     (if \<not> USE_API w then (False, w)
      else case clearAll_try w of
             (Inr bs, w') \<Rightarrow> (True, w')
           | (Inl err, w') \<Rightarrow> (False, w'))"

text \<open>\<^verbatim>\<open>if (query) params.append ('q', query)\<close>, and the same for the two dates.\<close>

definition param :: "string \<Rightarrow> string option" where
  "param s = (if s \<noteq> [] then Some s else None)"

definition search_try ::
  "string \<Rightarrow> string \<Rightarrow> string \<Rightarrow> world \<Rightarrow> (error + jsvalue) \<times> world" where
  "search_try query dateFrom dateTo w =
     fetch_entries (SearchReflections (param query) (param dateFrom) (param dateTo)) w"

definition searchEntriesInJSON ::
  "string \<Rightarrow> string \<Rightarrow> string \<Rightarrow> world \<Rightarrow> (error + jsvalue) \<times> world" where
  "searchEntriesInJSON query dateFrom dateTo w =
     (if \<not> USE_API w then
        (case fetchEntriesFromJSON w of
           (entries, w1) \<Rightarrow> (clientSideSearch entries query dateFrom dateTo, w1))
      else
        (case search_try query dateFrom dateTo w of
           (Inr entries, w1) \<Rightarrow> (Inr entries, w1)
         | (Inl err, w1) \<Rightarrow>
             (case fetchEntriesFromJSON w1 of
                (entries, w2) \<Rightarrow> (clientSideSearch entries query dateFrom dateTo, w2))))"

subsection \<open>The callers in main.js\<close>

text \<open>
  The entry that the form handler builds (\<^verbatim>\<open>setupFormSubmission\<close>): \<open>t_form\<close> is its
  \<^verbatim>\<open>Date.now()\<close>, \<open>today_form\<close> its date string. It then calls \<^verbatim>\<open>saveEntry\<close>.
\<close>

definition form_entry :: "string \<Rightarrow> string \<Rightarrow> string \<Rightarrow> int \<Rightarrow> json \<Rightarrow> entry" where
  "form_entry ttl cnt today_form t_form loc =
     \<lparr> id_field = None, title = Some ttl, content = Some cnt, date = Some today_form,
       timestamp = Some t_form, location = Some loc \<rparr>"

definition create ::
  "string \<Rightarrow> string \<Rightarrow> string \<Rightarrow> int \<Rightarrow> json \<Rightarrow> int \<Rightarrow> string \<Rightarrow> int \<Rightarrow> world \<Rightarrow> bool \<times> world" where
  "create ttl cnt today_form t_form loc t_id today t_ts w =
     saveEntry t_id today t_ts (form_entry ttl cnt today_form t_form loc) w"



subsection \<open>Example data\<close>


definition remote1 :: entry where
  "remote1 =
     \<lparr> id_field = Some ''1'', title = Some ''remote copy'', content = Some ''r'',
       date = Some ''2024-01-01'', timestamp = Some 1, location = None \<rparr>"

definition local1 :: entry where
  "local1 =
     \<lparr> id_field = Some ''1'', title = Some ''local copy'', content = Some ''l'',
       date = Some ''2024-01-01'', timestamp = Some 1, location = None \<rparr>"

definition local2 :: entry where
  "local2 =
     \<lparr> id_field = Some ''2'', title = Some ''only local'', content = Some ''l'',
       date = Some ''2024-01-02'', timestamp = Some 2, location = None \<rparr>"

definition alpha_day :: entry where
  "alpha_day =
     \<lparr> id_field = None, title = Some ''Alpha day'', content = Some ''x'',
       date = Some ''2024-01-01'', timestamp = None, location = None \<rparr>"

definition beta :: entry where
  "beta =
     \<lparr> id_field = None, title = Some ''beta'', content = Some ''no match'',
       date = Some ''2024-02-01'', timestamp = None, location = None \<rparr>"

definition full_entry :: entry where
  "full_entry =
     \<lparr> id_field = Some ''mine'', title = Some ''T'', content = Some ''C'',
       date = Some ''2020-02-02'', timestamp = Some 5,
       location = Some (JObj [(''city'', JStr ''Oslo'')]) \<rparr>"

text \<open>A storage without limit, and one with room for a single entry.\<close>

definition unlimited :: "entry list \<Rightarrow> bool" where
  "unlimited es = True"

definition room_for_one :: "entry list \<Rightarrow> bool" where
  "room_for_one es = (length es \<le> 1)"

text \<open>A storage that refuses every write, as a browser with storage switched off does.\<close>

definition read_only :: "entry list \<Rightarrow> bool" where
  "read_only es = False"

text \<open>
  Three remote services: one that cannot be reached, one that serves only the static
  file, and one that lists three entries, refuses to delete the second, and lists the
  second alone when it is asked again.
\<close>

definition offline :: "nat \<Rightarrow> request \<Rightarrow> reply" where
  "offline n rq = Rejected"

definition static_only :: "nat \<Rightarrow> request \<Rightarrow> reply" where
  "static_only n rq =
     (case rq of
        GetStaticFile \<Rightarrow> Response True (Body (Arr [remote1]))
      | GetReflections \<Rightarrow> Rejected
      | DeleteReflection i \<Rightarrow> Rejected
      | SearchReflections q f t \<Rightarrow> Rejected)"


text \<open>A world with remote mode enabled and the remote service out of reach.\<close>

definition store :: "item \<Rightarrow> (entry list \<Rightarrow> bool) \<Rightarrow> world" where
  "store slot acc =
     \<lparr> journalEntries = slot, accepts = acc, USE_API = True, respond = offline, sent = [] \<rparr>"

definition static_world :: world where
  "static_world =
     \<lparr> journalEntries = Absent, accepts = unlimited, USE_API = False, respond = static_only,
       sent = [] \<rparr>"


subsection \<open>Merging\<close>

lemma merge_loop_eq:
  "merge_loop js ls acc = acc @ filter (\<lambda>l. id_field l \<notin> set (map id_field js)) ls"
proof (induction ls arbitrary: acc)
  case Nil
  show ?case by simp
next
  case (Cons l ls)
  have "list_ex (\<lambda>je. id_field je = id_field l) js \<longleftrightarrow> id_field l \<in> set (map id_field js)"
    by (induction js) auto
  with Cons show ?case by simp
qed

lemma merge_loop_spec: "merge_loop js ls js = merge_spec js ls"
  by (simp add: merge_loop_eq merge_spec_def)

lemma merge_spec_again: "merge_spec R (merge_spec R L) = merge_spec R L"
proof -
  have "filter (\<lambda>l. id_field l \<notin> set (map id_field R)) R = []"
    by (simp add: filter_empty_conv)
  then show ?thesis by (simp add: merge_spec_def)
qed

lemma merge_spec_absorb: "merge_spec (merge_spec R L) L = merge_spec R L"
proof -
  have "filter (\<lambda>l. id_field l \<notin> set (map id_field (merge_spec R L))) L = []"
    by (auto simp: filter_empty_conv merge_spec_def)
  then show ?thesis by (simp add: merge_spec_def[of "merge_spec R L"])
qed

lemma getAllEntries_store [simp]: "getAllEntries (store (Json v) acc) = v"
  by (simp add: getAllEntries_def store_def)

lemma accepts_store [simp]: "accepts (store slot acc) = acc"
  by (simp add: store_def)

lemma syncWithJSON_success:
  assumes "getAllEntries w = Arr L" and "accepts w (merge_spec R L)"
  shows "syncWithJSON R w = (merge_spec R L, w\<lparr>journalEntries := Json (Arr (merge_spec R L))\<rparr>)"
  using assms by (simp add: syncWithJSON_def merge_loop_spec setItem_def Let_def)

lemma syncWithJSON_failure:
  assumes "\<not> (\<exists>L. getAllEntries w = Arr L \<and> accepts w (merge_spec R L))"
  shows "syncWithJSON R w = (R, w)"
  using assms
  by (auto simp: syncWithJSON_def merge_loop_spec setItem_def Let_def split: jsvalue.splits)

lemma merge_example: "merge_spec [remote1] [local1, local2] = [remote1, local2]"
  by (simp add: merge_spec_def remote1_def local1_def local2_def)

text \<open>
  C1, as the code has it. When the local slot reads as a sequence \<open>L\<close> (a missing or
  unparsable text reads as the empty sequence) and the storage accepts the write,
  \<^verbatim>\<open>syncWithJSON\<close> returns the remote entries \<open>R\<close> in their order followed by the
  entries of \<open>L\<close> whose id is not the id of any remote entry, in the order of \<open>L\<close>, and
  the local store then holds this sequence. Only ids are compared: a local entry
  whose id is that of a remote entry is dropped, whatever its other fields are.
\<close>

theorem syncWithJSON_merges:
  assumes "getAllEntries w = Arr L"
    and "accepts w (R @ filter (\<lambda>l. id_field l \<notin> id_field ` set R) L)"
  shows "fst (syncWithJSON R w) = R @ filter (\<lambda>l. id_field l \<notin> id_field ` set R) L
       \<and> getAllEntries (snd (syncWithJSON R w)) = Arr (fst (syncWithJSON R w))"
  using assms syncWithJSON_success[of w L R]
  by (simp add: merge_spec_def getAllEntries_def)

theorem syncWithJSON_merges_witness:
  "fst (syncWithJSON [remote1] (store (Json (Arr [local1, local2])) unlimited))
     = [remote1, local2]
   \<and> getAllEntries (snd (syncWithJSON [remote1] (store (Json (Arr [local1, local2])) unlimited)))
     = Arr [remote1, local2]"
proof -
  let ?w = "store (Json (Arr [local1, local2])) unlimited"
  have a: "getAllEntries ?w = Arr [local1, local2]"
    by simp
  have b: "accepts ?w
      ([remote1] @ filter (\<lambda>l. id_field l \<notin> id_field ` set [remote1]) [local1, local2])"
    by (simp add: unlimited_def)
  have c: "[remote1] @ filter (\<lambda>l. id_field l \<notin> id_field ` set [remote1]) [local1, local2]
      = [remote1, local2]"
    by (simp add: remote1_def local1_def local2_def)
  show ?thesis using syncWithJSON_merges[OF a b] c by simp
qed

text \<open>
  C1 as stated fails where the write is refused: the storage has room for one entry,
  the local store holds \<open>local2\<close>, and the merge with \<open>[remote1]\<close> would hold two. The
  call returns the remote entries alone and the local store keeps what it had.
\<close>

theorem syncWithJSON_counterexample:
  "getAllEntries (store (Json (Arr [local2])) room_for_one) = Arr [local2]
   \<and> fst (syncWithJSON [remote1] (store (Json (Arr [local2])) room_for_one)) = [remote1]
   \<and> fst (syncWithJSON [remote1] (store (Json (Arr [local2])) room_for_one))
       \<noteq> [remote1, local2]
   \<and> getAllEntries (snd (syncWithJSON [remote1] (store (Json (Arr [local2])) room_for_one)))
       = Arr [local2]"
  by (simp add: syncWithJSON_def getAllEntries_def store_def setItem_def room_for_one_def
      remote1_def local2_def)

text \<open>
  C2: merging is idempotent. Calling \<^verbatim>\<open>syncWithJSON\<close> with the same remote entries on
  the world that the first call left returns the same sequence and leaves that world
  as it is; this holds in every world, also where the write is refused. On sequences,
  merging the merged sequence with the local one gives the merged sequence again.
\<close>

theorem syncWithJSON_idempotent:
  "syncWithJSON R (snd (syncWithJSON R w)) = syncWithJSON R w
   \<and> merge_loop (merge_loop R L R) L (merge_loop R L R) = merge_loop R L R"
proof
  show "syncWithJSON R (snd (syncWithJSON R w)) = syncWithJSON R w"
  proof (cases "\<exists>L. getAllEntries w = Arr L \<and> accepts w (merge_spec R L)")
    case True
    then obtain L where L: "getAllEntries w = Arr L" "accepts w (merge_spec R L)"
      by blast
    let ?w' = "w\<lparr>journalEntries := Json (Arr (merge_spec R L))\<rparr>"
    have first: "syncWithJSON R w = (merge_spec R L, ?w')"
      using L by (rule syncWithJSON_success)
    have "getAllEntries ?w' = Arr (merge_spec R L)"
      by (simp add: getAllEntries_def)
    moreover have "accepts ?w' (merge_spec R (merge_spec R L))"
      using L(2) by (simp add: merge_spec_again)
    ultimately have "syncWithJSON R ?w' = (merge_spec R (merge_spec R L),
        ?w'\<lparr>journalEntries := Json (Arr (merge_spec R (merge_spec R L)))\<rparr>)"
      by (rule syncWithJSON_success)
    then have "syncWithJSON R ?w' = (merge_spec R L, ?w')"
      by (simp add: merge_spec_again)
    with first show ?thesis by simp
  next
    case False
    then have "syncWithJSON R w = (R, w)"
      by (rule syncWithJSON_failure)
    then show ?thesis by simp
  qed
next
  show "merge_loop (merge_loop R L R) L (merge_loop R L R) = merge_loop R L R"
    by (simp add: merge_loop_spec merge_spec_absorb)
qed

theorem syncWithJSON_idempotent_witness:
  "syncWithJSON [remote1]
       (snd (syncWithJSON [remote1] (store (Json (Arr [local1, local2])) unlimited)))
     = ([remote1, local2],
        (store (Json (Arr [local1, local2])) unlimited)
          \<lparr>journalEntries := Json (Arr [remote1, local2])\<rparr>)"
proof -
  let ?w = "store (Json (Arr [local1, local2])) unlimited"
  have "syncWithJSON [remote1] ?w
      = (merge_spec [remote1] [local1, local2],
         ?w\<lparr>journalEntries := Json (Arr (merge_spec [remote1] [local1, local2]))\<rparr>)"
    by (rule syncWithJSON_success) (simp_all add: unlimited_def)
  then have "syncWithJSON [remote1] ?w
      = ([remote1, local2], ?w\<lparr>journalEntries := Json (Arr [remote1, local2])\<rparr>)"
    by (simp only: merge_example)
  with syncWithJSON_idempotent[of "[remote1]" ?w "[]"] show ?thesis
    by simp
qed

subsection \<open>Deleting\<close>

lemma deleteEntry_success:
  assumes "getAllEntries w = Arr L"
    and "accepts w (filter (\<lambda>e. id_field e \<noteq> Some entryId) L)"
  shows "deleteEntry entryId w =
     (True, w\<lparr>journalEntries := Json (Arr (filter (\<lambda>e. id_field e \<noteq> Some entryId) L))\<rparr>)"
  using assms by (simp add: deleteEntry_def setItem_def)

text \<open>
  C7, as the code has it. When the local slot reads as a sequence \<open>L\<close> and the storage
  accepts the write, \<^verbatim>\<open>deleteEntry\<close> reports success and leaves exactly the entries
  of \<open>L\<close> whose id differs from the given one, in their order; for an id that no
  entry has, the collection is the same as before.
\<close>

theorem deleteEntry_filters:
  assumes "getAllEntries w = Arr L"
    and "accepts w (filter (\<lambda>e. id_field e \<noteq> Some entryId) L)"
  shows "fst (deleteEntry entryId w)
       \<and> getAllEntries (snd (deleteEntry entryId w))
           = Arr (filter (\<lambda>e. id_field e \<noteq> Some entryId) L)
       \<and> (Some entryId \<notin> id_field ` set L \<longrightarrow>
            getAllEntries (snd (deleteEntry entryId w)) = Arr L)"
proof -
  have "Some entryId \<notin> id_field ` set L \<Longrightarrow> filter (\<lambda>e. id_field e \<noteq> Some entryId) L = L"
    by (rule filter_True) force
  then show ?thesis
    using deleteEntry_success[OF assms] by (simp add: getAllEntries_def)
qed

theorem deleteEntry_filters_witness:
  "fst (deleteEntry ''1'' (store (Json (Arr [local2, local1, local2])) unlimited))
   \<and> getAllEntries (snd (deleteEntry ''1'' (store (Json (Arr [local2, local1, local2])) unlimited)))
       = Arr [local2, local2]
   \<and> fst (deleteEntry ''7'' (store (Json (Arr [local2, local1, local2])) unlimited))
   \<and> getAllEntries (snd (deleteEntry ''7'' (store (Json (Arr [local2, local1, local2])) unlimited)))
       = Arr [local2, local1, local2]"
proof -
  let ?w = "store (Json (Arr [local2, local1, local2])) unlimited"
  have a: "getAllEntries ?w = Arr [local2, local1, local2]"
    by simp
  have b: "accepts ?w (filter (\<lambda>e. id_field e \<noteq> Some i) [local2, local1, local2])" for i
    by (simp add: unlimited_def)
  have c: "filter (\<lambda>e. id_field e \<noteq> Some ''1'') [local2, local1, local2] = [local2, local2]"
    by (simp add: local1_def local2_def)
  have d: "Some ''7'' \<notin> id_field ` set [local2, local1, local2]"
    by (simp add: local1_def local2_def)
  from deleteEntry_filters[OF a b, of "''1''"]
  have one: "fst (deleteEntry ''1'' ?w)
      \<and> getAllEntries (snd (deleteEntry ''1'' ?w)) = Arr [local2, local2]"
    by (simp only: c)
  from deleteEntry_filters[OF a b, of "''7''"] d
  have seven: "fst (deleteEntry ''7'' ?w)
      \<and> getAllEntries (snd (deleteEntry ''7'' ?w)) = Arr [local2, local1, local2]"
    by blast
  from one seven show ?thesis by simp
qed

text \<open>
  C7 as stated fails in two kinds of store state. Where the storage refuses the write,
  \<^verbatim>\<open>setItem\<close> raises; where the slot holds the text of a JSON value that is not an
  array, \<^verbatim>\<open>{}\<close> for one, \<^verbatim>\<open>entries.filter\<close> raises. In both the \<^verbatim>\<open>catch\<close> returns
  \<^verbatim>\<open>false\<close> and the store is left as it was.
\<close>

theorem deleteEntry_counterexample:
  "\<not> fst (deleteEntry ''7'' (store (Json (Arr [local1])) read_only))
   \<and> snd (deleteEntry ''7'' (store (Json (Arr [local1])) read_only))
       = store (Json (Arr [local1])) read_only
   \<and> \<not> fst (deleteEntry ''1'' (store (Json Other) unlimited))
   \<and> snd (deleteEntry ''1'' (store (Json Other) unlimited)) = store (Json Other) unlimited"
  by (simp add: deleteEntry_def setItem_def read_only_def)

subsection \<open>Saving\<close>

lemma saveEntry_True:
  "saveEntry t_id today t_ts e w = (True, w') \<Longrightarrow>
     \<exists>prior. getAllEntries w = Arr prior \<and> accepts w (newEntry t_id today t_ts e # prior)
       \<and> w' = w\<lparr>journalEntries := Json (Arr (newEntry t_id today t_ts e # prior))\<rparr>"
  by (auto simp: saveEntry_def setItem_def split: jsvalue.splits if_splits)

lemma saveEntry_success:
  "getAllEntries w = Arr prior \<Longrightarrow> accepts w (newEntry t_id today t_ts e # prior) \<Longrightarrow>
     saveEntry t_id today t_ts e w
       = (True, w\<lparr>journalEntries := Json (Arr (newEntry t_id today t_ts e # prior))\<rparr>)"
  by (simp add: saveEntry_def setItem_def)

lemma of_char_digit_char: "d < 10 \<Longrightarrow> of_char (digit_char d) = (48 + d :: nat)"
  by (simp add: digit_char_def)

lemma digit_char_inj: "a < 10 \<Longrightarrow> b < 10 \<Longrightarrow> digit_char a = digit_char b \<Longrightarrow> a = b"
proof -
  assume a: "a < 10" and b: "b < 10" and eq: "digit_char a = digit_char b"
  from eq have "(of_char (digit_char a) :: nat) = of_char (digit_char b)"
    by simp
  with a b show "a = b"
    by (simp add: of_char_digit_char)
qed

lemma digit_chars:
  "digit_char 0 = CHR ''0''" "digit_char 1 = CHR ''1''" "digit_char 2 = CHR ''2''"
  "digit_char 3 = CHR ''3''" "digit_char 4 = CHR ''4''" "digit_char 5 = CHR ''5''"
  "digit_char 6 = CHR ''6''" "digit_char 7 = CHR ''7''" "digit_char 8 = CHR ''8''"
  "digit_char 9 = CHR ''9''" "digit_char (Suc 0) = CHR ''1''"
  by code_simp+

lemma digits_small: "n < 10 \<Longrightarrow> digits n = [digit_char n]"
  by (subst digits.simps) simp

lemma digits_big: "\<not> n < 10 \<Longrightarrow> digits n = digits (n div 10) @ [digit_char (n mod 10)]"
  by (subst digits.simps) simp

lemma digits_nonempty: "digits n \<noteq> []"
  by (cases "n < 10") (simp_all add: digits_small digits_big)

lemma digits_length: "length (digits n) = Suc 0 \<longleftrightarrow> n < 10"
  by (cases "n < 10") (simp_all add: digits_small digits_big digits_nonempty)

lemma digits_inj: "digits n = digits m \<Longrightarrow> n = m"
proof (induction n arbitrary: m rule: digits.induct)
  case (1 n)
  show ?case
  proof (cases "n < 10")
    case True
    then have "length (digits n) = Suc 0"
      by (simp add: digits_length)
    then have m: "m < 10"
      using "1.prems" by (simp add: digits_length)
    from True m "1.prems" have "digit_char n = digit_char m"
      by (simp add: digits_small)
    then show ?thesis
      using True m by (rule digit_char_inj[rotated 2])
  next
    case False
    then have "length (digits n) \<noteq> Suc 0"
      by (simp add: digits_length)
    then have m: "\<not> m < 10"
      using "1.prems" by (simp add: digits_length)
    from False m "1.prems"
    have "digits (n div 10) @ [digit_char (n mod 10)]
        = digits (m div 10) @ [digit_char (m mod 10)]"
      by (simp add: digits_big)
    then have a: "digits (n div 10) = digits (m div 10)"
      and b: "digit_char (n mod 10) = digit_char (m mod 10)"
      by simp_all
    from "1.IH"[OF False a] have "n div 10 = m div 10" .
    moreover from b have "n mod 10 = m mod 10"
      by (intro digit_char_inj) simp_all
    ultimately show ?thesis
      by (metis div_mult_mod_eq)
  qed
qed

lemma digits_hd: "(48 :: nat) \<le> of_char (hd (digits n))"
proof (induction n rule: digits.induct)
  case (1 n)
  show ?case
  proof (cases "n < 10")
    case True
    then show ?thesis
      by (simp add: digits_small of_char_digit_char)
  next
    case False
    with 1 show ?thesis
      by (simp add: digits_big digits_nonempty)
  qed
qed

lemma digits_no_minus: "CHR ''-'' # digits n \<noteq> digits m"
proof
  assume "CHR ''-'' # digits n = digits m"
  then have "hd (digits m) = CHR ''-''"
    by (metis list.sel(1))
  then have "(of_char (hd (digits m)) :: nat) = 45"
    by simp
  with digits_hd[of m] show False
    by simp
qed

lemma toString_inj: "toString a = toString b \<Longrightarrow> a = b"
proof -
  assume eq: "toString a = toString b"
  show ?thesis
  proof (cases "a < 0"; cases "b < 0")
    assume "a < 0" "b < 0"
    with eq have "nat (- a) = nat (- b)"
      by (auto simp: toString_def dest: digits_inj)
    with \<open>a < 0\<close> \<open>b < 0\<close> show ?thesis
      by simp
  next
    assume "a < 0" "\<not> b < 0"
    with eq digits_no_minus show ?thesis
      by (simp add: toString_def)
  next
    assume "\<not> a < 0" "b < 0"
    with eq digits_no_minus[of "nat (- b)" "nat a"] show ?thesis
      by (simp add: toString_def)
  next
    assume "\<not> a < 0" "\<not> b < 0"
    with eq have "nat a = nat b"
      by (auto simp: toString_def dest: digits_inj)
    with \<open>\<not> a < 0\<close> \<open>\<not> b < 0\<close> show ?thesis
      by simp
  qed
qed

lemma toString_example: "toString 1700000000000 = ''1700000000000''"
  by (simp add: toString_def digits_big digits_small digit_chars)

lemma newEntry_alpha_day:
  "newEntry 1700000000000 ''2023-11-14'' 1700000000001 alpha_day =
     \<lparr> id_field = Some ''1700000000000'', title = Some ''Alpha day'', content = Some ''x'',
       date = Some ''2024-01-01'', timestamp = Some 1700000000001,
       location = Some default_location \<rparr>"
  by (simp add: newEntry_def spread_def override_def alpha_day_def or_str_def or_num_def
      or_json_def toString_example)

lemma newEntry_full_entry:
  "newEntry 1700000000000 ''2023-11-14'' 1700000000001 full_entry = full_entry"
  by (simp add: newEntry_def spread_def override_def full_entry_def)

text \<open>
  C8: a successful \<^verbatim>\<open>saveEntry\<close> puts the new entry in front. The local collection
  was a sequence before the call, and after it the collection is the entry that
  \<^verbatim>\<open>saveEntry\<close> built followed by that sequence, unchanged.
\<close>

theorem saveEntry_prepends:
  assumes "saveEntry t_id today t_ts e w = (True, w')"
  shows "\<exists>prior. getAllEntries w = Arr prior
           \<and> getAllEntries w' = Arr (newEntry t_id today t_ts e # prior)"
  using saveEntry_True[OF assms] by (auto simp: getAllEntries_def)

theorem saveEntry_prepends_witness:
  "saveEntry 1700000000000 ''2023-11-14'' 1700000000001 alpha_day
       (store (Json (Arr [local1, local2])) unlimited)
     = (True, (store (Json (Arr [local1, local2])) unlimited)
          \<lparr>journalEntries := Json (Arr
             [\<lparr> id_field = Some ''1700000000000'', title = Some ''Alpha day'',
                 content = Some ''x'', date = Some ''2024-01-01'',
                 timestamp = Some 1700000000001, location = Some default_location \<rparr>,
              local1, local2])\<rparr>)
   \<and> getAllEntries (snd (saveEntry 1700000000000 ''2023-11-14'' 1700000000001 alpha_day
         (store (Json (Arr [local1, local2])) unlimited)))
     = Arr [\<lparr> id_field = Some ''1700000000000'', title = Some ''Alpha day'',
                 content = Some ''x'', date = Some ''2024-01-01'',
                 timestamp = Some 1700000000001, location = Some default_location \<rparr>,
              local1, local2]"
proof -
  let ?w = "store (Json (Arr [local1, local2])) unlimited"
  let ?n = "newEntry 1700000000000 ''2023-11-14'' 1700000000001 alpha_day"
  have s: "saveEntry 1700000000000 ''2023-11-14'' 1700000000001 alpha_day ?w
     = (True, ?w\<lparr>journalEntries := Json (Arr [?n, local1, local2])\<rparr>)"
    by (rule saveEntry_success) (simp_all add: unlimited_def)
  from saveEntry_prepends[OF s]
  have "getAllEntries (?w\<lparr>journalEntries := Json (Arr [?n, local1, local2])\<rparr>)
      = Arr [?n, local1, local2]"
    by simp
  with s show ?thesis
    by (simp add: newEntry_alpha_day)
qed

text \<open>
  C10: what the caller's entry carries wins. After a successful \<^verbatim>\<open>saveEntry\<close> the first
  entry of the local collection has, for each of the six fields that the caller's
  entry has, the caller's value; so an id of the caller replaces the generated one.
\<close>

theorem saveEntry_keeps_supplied_fields:
  assumes "saveEntry t_id today t_ts e w = (True, w')"
  shows "\<exists>stored rest. getAllEntries w' = Arr (stored # rest)
     \<and> (\<forall>v. id_field e = Some v \<longrightarrow> id_field stored = Some v)
     \<and> (\<forall>v. title e = Some v \<longrightarrow> title stored = Some v)
     \<and> (\<forall>v. content e = Some v \<longrightarrow> content stored = Some v)
     \<and> (\<forall>v. date e = Some v \<longrightarrow> date stored = Some v)
     \<and> (\<forall>v. timestamp e = Some v \<longrightarrow> timestamp stored = Some v)
     \<and> (\<forall>v. location e = Some v \<longrightarrow> location stored = Some v)"
proof -
  from saveEntry_True[OF assms] obtain prior where
    "getAllEntries w' = Arr (newEntry t_id today t_ts e # prior)"
    by (auto simp: getAllEntries_def)
  then show ?thesis
    by (auto simp: newEntry_def spread_def override_def)
qed

theorem saveEntry_keeps_supplied_fields_witness:
  "\<exists>stored rest.
     getAllEntries (snd (saveEntry 1700000000000 ''2023-11-14'' 1700000000001 full_entry
        (store Absent unlimited))) = Arr (stored # rest)
     \<and> id_field stored = Some ''mine'' \<and> title stored = Some ''T''
     \<and> content stored = Some ''C'' \<and> date stored = Some ''2020-02-02''
     \<and> timestamp stored = Some 5
     \<and> location stored = Some (JObj [(''city'', JStr ''Oslo'')])"
proof -
  let ?w = "store Absent unlimited"
  have "getAllEntries ?w = Arr []"
    by (simp add: getAllEntries_def store_def)
  then have s: "saveEntry 1700000000000 ''2023-11-14'' 1700000000001 full_entry ?w
     = (True, ?w\<lparr>journalEntries := Json (Arr
          [newEntry 1700000000000 ''2023-11-14'' 1700000000001 full_entry])\<rparr>)"
    by (rule saveEntry_success) (simp add: unlimited_def)
  from saveEntry_keeps_supplied_fields[OF s] s show ?thesis
    by (simp add: full_entry_def)
qed

subsection \<open>Creating through the form\<close>

lemma create_success:
  "getAllEntries w = Arr prior \<Longrightarrow>
   accepts w (newEntry t_id today t_ts (form_entry ttl cnt today_form t_form loc) # prior) \<Longrightarrow>
   create ttl cnt today_form t_form loc t_id today t_ts w
     = (True, w\<lparr>journalEntries := Json (Arr
          (newEntry t_id today t_ts (form_entry ttl cnt today_form t_form loc) # prior))\<rparr>)"
  by (simp add: create_def saveEntry_success)

lemma toString_example2:
  "toString 1700000000001 = ''1700000000001''"
  by (simp add: toString_def digits_big digits_small digit_chars)

text \<open>
  C9, as the code has it. The form handler reads the clock when it builds the entry
  (\<open>t_form\<close>), and \<^verbatim>\<open>saveEntry\<close> reads it again for the id (\<open>t_id\<close>). The stored id is
  the decimal string of \<open>t_id\<close>, the stored timestamp is \<open>t_form\<close>, and the id is the
  string of the stored timestamp exactly when the two readings are the same.
\<close>

theorem create_id_and_timestamp:
  assumes "create ttl cnt today_form t_form loc t_id today t_ts w = (True, w')"
  shows "\<exists>stored rest. getAllEntries w' = Arr (stored # rest)
     \<and> id_field stored = Some (toString t_id)
     \<and> timestamp stored = Some t_form
     \<and> (id_field stored = map_option toString (timestamp stored) \<longleftrightarrow> t_id = t_form)"
proof -
  from assms
  have "saveEntry t_id today t_ts (form_entry ttl cnt today_form t_form loc) w = (True, w')"
    by (simp add: create_def)
  from saveEntry_True[OF this] obtain prior where
    "getAllEntries w' =
       Arr (newEntry t_id today t_ts (form_entry ttl cnt today_form t_form loc) # prior)"
    by (auto simp: getAllEntries_def)
  moreover have "toString t_id = toString t_form \<longleftrightarrow> t_id = t_form"
    using toString_inj by blast
  ultimately show ?thesis
    by (simp add: newEntry_def spread_def override_def form_entry_def)
qed

theorem create_id_and_timestamp_witness:
  "\<exists>stored rest.
     getAllEntries (snd (create ''Alpha day'' ''x'' ''2023-11-14'' 1700000000000 default_location
        1700000000000 ''2023-11-14'' 1700000000000 (store Absent unlimited))) = Arr (stored # rest)
     \<and> id_field stored = Some ''1700000000000''
     \<and> timestamp stored = Some 1700000000000"
proof -
  let ?w = "store Absent unlimited"
  have "getAllEntries ?w = Arr []"
    by (simp add: getAllEntries_def store_def)
  then have s: "create ''Alpha day'' ''x'' ''2023-11-14'' 1700000000000 default_location
        1700000000000 ''2023-11-14'' 1700000000000 ?w
     = (True, ?w\<lparr>journalEntries := Json (Arr
          [newEntry 1700000000000 ''2023-11-14'' 1700000000000
             (form_entry ''Alpha day'' ''x'' ''2023-11-14'' 1700000000000 default_location)])\<rparr>)"
    by (rule create_success) (simp add: unlimited_def)
  from create_id_and_timestamp[OF s] s show ?thesis
    by (simp add: toString_example) blast
qed

text \<open>
  C9 as stated fails when the clock ticks between the two readings: the entry is built
  at 1700000000000 and saved at 1700000000001.
\<close>

theorem create_id_counterexample:
  "getAllEntries (snd (create ''Alpha day'' ''x'' ''2023-11-14'' 1700000000000 default_location
        1700000000001 ''2023-11-14'' 1700000000001 (store Absent unlimited)))
     = Arr [\<lparr> id_field = Some ''1700000000001'', title = Some ''Alpha day'', content = Some ''x'',
              date = Some ''2023-11-14'', timestamp = Some 1700000000000,
              location = Some default_location \<rparr>]
   \<and> toString 1700000000000 = ''1700000000000''
   \<and> Some ''1700000000001'' \<noteq> Some (toString 1700000000000)"
proof -
  let ?w = "store Absent unlimited"
  have "getAllEntries ?w = Arr []"
    by (simp add: getAllEntries_def store_def)
  then have s: "create ''Alpha day'' ''x'' ''2023-11-14'' 1700000000000 default_location
        1700000000001 ''2023-11-14'' 1700000000001 ?w
     = (True, ?w\<lparr>journalEntries := Json (Arr
          [newEntry 1700000000001 ''2023-11-14'' 1700000000001
             (form_entry ''Alpha day'' ''x'' ''2023-11-14'' 1700000000000 default_location)])\<rparr>)"
    by (rule create_success) (simp add: unlimited_def)
  have n: "newEntry 1700000000001 ''2023-11-14'' 1700000000001
             (form_entry ''Alpha day'' ''x'' ''2023-11-14'' 1700000000000 default_location)
      = \<lparr> id_field = Some ''1700000000001'', title = Some ''Alpha day'', content = Some ''x'',
              date = Some ''2023-11-14'', timestamp = Some 1700000000000,
              location = Some default_location \<rparr>"
    by (simp add: newEntry_def spread_def override_def form_entry_def toString_example2)
  show ?thesis
    by (simp add: s n getAllEntries_def toString_example)
qed

subsection \<open>Fetching\<close>

lemma fetch_fields [simp]:
  "journalEntries (snd (fetch rq w)) = journalEntries w"
  "accepts (snd (fetch rq w)) = accepts w"
  "USE_API (snd (fetch rq w)) = USE_API w"
  "respond (snd (fetch rq w)) = respond w"
  "sent (snd (fetch rq w)) = sent w @ [rq]"
  "fst (fetch rq w) = respond w (length (sent w)) rq"
  by (simp_all add: fetch_def)

lemma fetch_entries_fields [simp]:
  "journalEntries (snd (fetch_entries rq w)) = journalEntries w"
  "accepts (snd (fetch_entries rq w)) = accepts w"
  "USE_API (snd (fetch_entries rq w)) = USE_API w"
  "respond (snd (fetch_entries rq w)) = respond w"
  "sent (snd (fetch_entries rq w)) = sent w @ [rq]"
  by (simp_all add: fetch_entries_def fetch_def split: sum.splits jsvalue.splits)

lemma fetch_entries_fails:
  "read_json (respond w (length (sent w)) rq) = Inl err \<Longrightarrow> fst (fetch_entries rq w) = Inl err"
  "read_json (respond w (length (sent w)) rq) = Inr Null \<Longrightarrow> fst (fetch_entries rq w) = Inl TypeError"
  by (simp_all add: fetch_entries_def fetch_def)

lemma fetchEntriesFromJSON_fields [simp]:
  "journalEntries (snd (fetchEntriesFromJSON w)) = journalEntries w"
  "accepts (snd (fetchEntriesFromJSON w)) = accepts w"
  "USE_API (snd (fetchEntriesFromJSON w)) = USE_API w"
  "respond (snd (fetchEntriesFromJSON w)) = respond w"
  "sent (snd (fetchEntriesFromJSON w))
     = sent w @ [if USE_API w then GetReflections else GetStaticFile]"
proof -
  have *: "snd (fetchEntriesFromJSON w)
      = snd (fetch_entries (if USE_API w then GetReflections else GetStaticFile) w)"
    by (simp add: fetchEntriesFromJSON_def split: prod.splits sum.splits)
  show "journalEntries (snd (fetchEntriesFromJSON w)) = journalEntries w"
    "accepts (snd (fetchEntriesFromJSON w)) = accepts w"
    "USE_API (snd (fetchEntriesFromJSON w)) = USE_API w"
    "respond (snd (fetchEntriesFromJSON w)) = respond w"
    "sent (snd (fetchEntriesFromJSON w))
       = sent w @ [if USE_API w then GetReflections else GetStaticFile]"
    unfolding * by simp_all
qed

lemma fetchEntriesFromJSON_not_Null: "fst (fetchEntriesFromJSON w) \<noteq> Null"
  by (auto simp: fetchEntriesFromJSON_def fetch_entries_def split: prod.splits sum.splits jsvalue.splits if_splits)

text \<open>
  C3, as the code has it. \<^verbatim>\<open>fetchEntriesFromJSON\<close> makes one retrieval: from the API when
  remote mode is enabled, from the static JSON file when it is disabled. It leaves the
  local slot as it is, and it returns the empty sequence whenever that retrieval
  fails: the request is rejected, the response is not a success, its body is not
  JSON, or the body is \<^verbatim>\<open>null\<close>. Every error of the \<^verbatim>\<open>try\<close> block ends in the \<^verbatim>\<open>catch\<close>,
  so the function returns a value in every world.
\<close>

theorem fetchEntriesFromJSON_degrades:
  "journalEntries (snd (fetchEntriesFromJSON w)) = journalEntries w
   \<and> (\<forall>err. fst (fetch_entries (if USE_API w then GetReflections else GetStaticFile) w)
               = Inl err
        \<longrightarrow> fst (fetchEntriesFromJSON w) = Arr [])
   \<and> ((\<exists>err. read_json (respond w (length (sent w))
                 (if USE_API w then GetReflections else GetStaticFile)) = Inl err)
        \<longrightarrow> fst (fetchEntriesFromJSON w) = Arr [])
   \<and> (read_json (respond w (length (sent w))
                 (if USE_API w then GetReflections else GetStaticFile)) = Inr Null
        \<longrightarrow> fst (fetchEntriesFromJSON w) = Arr [])"
proof (intro conjI impI allI)
  show "journalEntries (snd (fetchEntriesFromJSON w)) = journalEntries w"
    by simp
next
  fix err
  assume "fst (fetch_entries (if USE_API w then GetReflections else GetStaticFile) w) = Inl err"
  then show "fst (fetchEntriesFromJSON w) = Arr []"
    by (auto simp: fetchEntriesFromJSON_def split: prod.splits sum.splits if_splits)
next
  assume "\<exists>err. read_json (respond w (length (sent w))
                 (if USE_API w then GetReflections else GetStaticFile)) = Inl err"
  then obtain err where "read_json (respond w (length (sent w))
                 (if USE_API w then GetReflections else GetStaticFile)) = Inl err" ..
  from fetch_entries_fails(1)[OF this] show "fst (fetchEntriesFromJSON w) = Arr []"
    by (auto simp: fetchEntriesFromJSON_def split: prod.splits sum.splits if_splits)
next
  assume "read_json (respond w (length (sent w))
                 (if USE_API w then GetReflections else GetStaticFile)) = Inr Null"
  from fetch_entries_fails(2)[OF this] show "fst (fetchEntriesFromJSON w) = Arr []"
    by (auto simp: fetchEntriesFromJSON_def split: prod.splits sum.splits if_splits)
qed

theorem fetchEntriesFromJSON_degrades_witness:
  "journalEntries (snd (fetchEntriesFromJSON (store (Json (Arr [local1])) unlimited)))
     = Json (Arr [local1])
   \<and> fst (fetchEntriesFromJSON (store (Json (Arr [local1])) unlimited)) = Arr []"
proof -
  let ?w = "store (Json (Arr [local1])) unlimited"
  have "read_json (respond ?w (length (sent ?w))
           (if USE_API ?w then GetReflections else GetStaticFile)) = Inl NetworkError"
    by (simp add: store_def offline_def)
  then have "\<exists>err. read_json (respond ?w (length (sent ?w))
           (if USE_API ?w then GetReflections else GetStaticFile)) = Inl err"
    by blast
  with fetchEntriesFromJSON_degrades[of ?w] show ?thesis
    by (simp add: store_def)
qed

text \<open>
  C3 as stated fails in disabled mode: the static file is served, and the function
  returns its entries, not the empty sequence.
\<close>

theorem fetchEntriesFromJSON_counterexample:
  "\<not> USE_API static_world \<and> fst (fetchEntriesFromJSON static_world) = Arr [remote1]
   \<and> fst (fetchEntriesFromJSON static_world) \<noteq> Arr []"
  by (simp add: static_world_def fetchEntriesFromJSON_def fetch_entries_def fetch_def static_only_def)

subsection \<open>Clearing\<close>

lemma deleteEntryFromJSON_fields [simp]:
  "journalEntries (snd (deleteEntryFromJSON i w)) = journalEntries w"
  "accepts (snd (deleteEntryFromJSON i w)) = accepts w"
  "USE_API (snd (deleteEntryFromJSON i w)) = USE_API w"
  "respond (snd (deleteEntryFromJSON i w)) = respond w"
  by (simp_all add: deleteEntryFromJSON_def fetch_def split: sum.splits)


lemma delete_each_Cons_fst:
  "fst (delete_each (e # es) w)
     = fst (deleteEntryFromJSON (id_field e) w)
       # fst (delete_each es (snd (deleteEntryFromJSON (id_field e) w)))"
  by (simp split: prod.splits)

lemma delete_each_Cons_snd:
  "snd (delete_each (e # es) w) = snd (delete_each es (snd (deleteEntryFromJSON (id_field e) w)))"
  by (simp split: prod.splits)

lemma delete_each_fields [simp]:
  "journalEntries (snd (delete_each es w)) = journalEntries w"
  "USE_API (snd (delete_each es w)) = USE_API w"
  by (induction es arbitrary: w) (simp_all add: delete_each_Cons_snd del: delete_each.simps(2))


lemma delete_each_length: "length (fst (delete_each es w)) = length es"
  by (induction es arbitrary: w) (simp_all add: delete_each_Cons_fst del: delete_each.simps(2))

lemma clearAll_try_Arr:
  assumes "fst (fetchEntriesFromJSON w) = Arr es"
  shows "clearAll_try w
     = (Inr (fst (delete_each es (snd (fetchEntriesFromJSON w)))),
        snd (delete_each es (snd (fetchEntriesFromJSON w))))"
  using assms by (cases "fetchEntriesFromJSON w") (simp add: clearAll_try_def split: prod.splits)

lemma clearAll_try_Other:
  assumes "fst (fetchEntriesFromJSON w) = Other"
  shows "clearAll_try w = (Inl TypeError, snd (fetchEntriesFromJSON w))"
  using assms by (cases "fetchEntriesFromJSON w") (simp add: clearAll_try_def)

lemma clearAll_try_journalEntries [simp]:
  "journalEntries (snd (clearAll_try w)) = journalEntries w"
proof (cases "fst (fetchEntriesFromJSON w)")
  case (Arr es)
  from clearAll_try_Arr[OF this] show ?thesis by simp
next
  case Null
  then show ?thesis by (simp add: fetchEntriesFromJSON_not_Null)
next
  case Other
  from clearAll_try_Other[OF this] show ?thesis by simp
qed

lemma clearAllEntriesFromJSON_journalEntries [simp]:
  "journalEntries (snd (clearAllEntriesFromJSON w)) = journalEntries w"
proof (cases "USE_API w")
  case True
  have "snd (clearAllEntriesFromJSON w) = snd (clearAll_try w)"
    using True by (simp add: clearAllEntriesFromJSON_def split: prod.splits sum.splits)
  then show ?thesis by simp
next
  case False
  then show ?thesis by (simp add: clearAllEntriesFromJSON_def)
qed



lemma delete_each_accepts [simp]: "accepts (snd (delete_each es w)) = accepts w"
  by (induction es arbitrary: w) (simp_all add: delete_each_Cons_snd del: delete_each.simps(2))

lemma clearAll_try_accepts [simp]: "accepts (snd (clearAll_try w)) = accepts w"
proof (cases "fst (fetchEntriesFromJSON w)")
  case (Arr es)
  from clearAll_try_Arr[OF this] show ?thesis by simp
next
  case Null
  then show ?thesis by (simp add: fetchEntriesFromJSON_not_Null)
next
  case Other
  from clearAll_try_Other[OF this] show ?thesis by simp
qed

lemma clearAllEntriesFromJSON_accepts [simp]:
  "accepts (snd (clearAllEntriesFromJSON w)) = accepts w"
proof (cases "USE_API w")
  case True
  have "snd (clearAllEntriesFromJSON w) = snd (clearAll_try w)"
    using True by (simp add: clearAllEntriesFromJSON_def split: prod.splits sum.splits)
  then show ?thesis by simp
next
  case False
  then show ?thesis by (simp add: clearAllEntriesFromJSON_def)
qed








subsection \<open>Searching\<close>

lemma includes_str_sublist: "includes_str hay needle \<longleftrightarrow> sublist needle hay"
  by (induction hay) (simp_all add: sublist_Cons_right)

lemma keyword_match_iff:
  "keyword_match q e \<longleftrightarrow>
     (case title e of None \<Rightarrow> False | Some t \<Rightarrow> sublist q (toLowerCase t))
   \<or> (case content e of None \<Rightarrow> False | Some c \<Rightarrow> sublist q (toLowerCase c))"
  by (simp add: keyword_match_def includes_str_sublist split: option.splits)

lemma toLowerCase_letters:
  "toLowerCase ''ABCDEFGHIJKLMNOPQRSTUVWXYZ'' = ''abcdefghijklmnopqrstuvwxyz''"
  by code_simp

lemma upper_letters:
  assumes "CHR ''A'' \<le> c" and "c \<le> CHR ''Z''"
  shows "c \<in> set ''ABCDEFGHIJKLMNOPQRSTUVWXYZ''"
proof -
  from assms have "(65 :: nat) \<le> of_char c" "of_char c \<le> (90 :: nat)"
    by (simp_all add: less_eq_char_def)
  then have "(of_char c :: nat) \<in> {65 ..< 91}"
    by simp
  then have "(of_char c :: nat) \<in> set [65 ..< 91]"
    by (simp only: set_upt)
  then have m: "char_of (of_char c :: nat) \<in> char_of ` set [65 ..< (91 :: nat)]"
    by (rule imageI)
  have l: "char_of ` set [65 ..< (91 :: nat)] = set ''ABCDEFGHIJKLMNOPQRSTUVWXYZ''"
    by code_simp
  from m[unfolded l] show ?thesis
    by (simp only: char_of_char)
qed

lemma lower_char_other:
  "c \<notin> set ''ABCDEFGHIJKLMNOPQRSTUVWXYZ'' \<Longrightarrow> lower_char c = c"
  using upper_letters[of c] by (auto simp: lower_char_def)

text \<open>
  C5, for ASCII text: on a sequence of entries \<^verbatim>\<open>clientSideSearch\<close> returns exactly the
  entries that satisfy the filter of the specification, in their order. The folding
  that makes the match case-insensitive takes each of the letters \<^verbatim>\<open>A\<close> to \<^verbatim>\<open>Z\<close> to its
  small letter and leaves every other character as it is. The two examples of the
  specification are the last two statements.
\<close>

theorem clientSideSearch_filters:
  assumes "ascii keyword" and "ascii dateFrom" and "ascii dateTo"
    and "list_all ascii_entry es"
  shows "clientSideSearch (Arr es) keyword dateFrom dateTo
     = Inr (Arr (filter (spec_match keyword dateFrom dateTo) es))
   \<and> toLowerCase ''ABCDEFGHIJKLMNOPQRSTUVWXYZ'' = ''abcdefghijklmnopqrstuvwxyz''
   \<and> (\<forall>c. c \<notin> set ''ABCDEFGHIJKLMNOPQRSTUVWXYZ'' \<longrightarrow> lower_char c = c)
   \<and> clientSideSearch (Arr [alpha_day, beta]) ''alpha'' [] [] = Inr (Arr [alpha_day])
   \<and> clientSideSearch (Arr [alpha_day, beta]) [] ''2024-01-15'' ''2024-02-15'' = Inr (Arr [beta])"
proof (intro conjI allI impI)
  show "clientSideSearch (Arr es) keyword dateFrom dateTo
     = Inr (Arr (filter (spec_match keyword dateFrom dateTo) es))"
    unfolding spec_match_def keyword_match_iff[symmetric] date_from_def[symmetric]
      date_to_def[symmetric]
    by (simp add: clientSideSearch_def js_filter_def conj_ac)
next
  show "toLowerCase ''ABCDEFGHIJKLMNOPQRSTUVWXYZ'' = ''abcdefghijklmnopqrstuvwxyz''"
    by (rule toLowerCase_letters)
next
  fix c
  assume "c \<notin> set ''ABCDEFGHIJKLMNOPQRSTUVWXYZ''"
  then show "lower_char c = c"
    by (rule lower_char_other)
next
  show "clientSideSearch (Arr [alpha_day, beta]) ''alpha'' [] [] = Inr (Arr [alpha_day])"
    by code_simp
next
  show "clientSideSearch (Arr [alpha_day, beta]) [] ''2024-01-15'' ''2024-02-15'' = Inr (Arr [beta])"
    by code_simp
qed

theorem clientSideSearch_filters_witness:
  "ascii ''ALPHA'' \<and> ascii ''2024-01-01'' \<and> ascii ''2024-01-31''
   \<and> list_all ascii_entry [alpha_day, beta, local1]
   \<and> clientSideSearch (Arr [alpha_day, beta, local1]) ''ALPHA'' ''2024-01-01'' ''2024-01-31''
       = Inr (Arr [alpha_day])
   \<and> filter (spec_match ''ALPHA'' ''2024-01-01'' ''2024-01-31'') [alpha_day, beta, local1]
       = [alpha_day]"
proof -
  have a: "ascii ''ALPHA''" "ascii ''2024-01-01''" "ascii ''2024-01-31''"
    "list_all ascii_entry [alpha_day, beta, local1]"
    by code_simp+
  have c: "clientSideSearch (Arr [alpha_day, beta, local1]) ''ALPHA'' ''2024-01-01'' ''2024-01-31''
      = Inr (Arr [alpha_day])"
    by code_simp
  from clientSideSearch_filters[OF a] c a show ?thesis
    by simp
qed

lemma searchEntriesInJSON_fallback:
  assumes "USE_API w" and "search_try query dateFrom dateTo w = (Inl err, w1)"
  shows "fst (searchEntriesInJSON query dateFrom dateTo w)
     = clientSideSearch (fst (fetchEntriesFromJSON w1)) query dateFrom dateTo"
  using assms by (simp add: searchEntriesInJSON_def split: prod.splits)

text \<open>
  C6: with remote mode enabled and the remote service out of reach, the search request
  fails, the fetch fails as well, and \<^verbatim>\<open>searchEntriesInJSON\<close> filters the empty sequence
  that \<^verbatim>\<open>fetchEntriesFromJSON\<close> returned. The local collection, which holds an entry
  that matches, is never read.
\<close>

theorem searchEntriesInJSON_ignores_local:
  "fst (searchEntriesInJSON ''alpha'' [] [] (store (Json (Arr [alpha_day, beta])) unlimited))
     = Inr (Arr [])
   \<and> clientSideSearch (getAllEntries (store (Json (Arr [alpha_day, beta])) unlimited)) ''alpha'' [] []
     = Inr (Arr [alpha_day])"
  by code_simp

end
